theory Spec2Isabelle
  imports Main "HOL-Library.Word"
begin

section \<open>Types, classes and environment objects\<close>

text \<open>
  The program is \<open>RelSerializer\<close> (package
  \<open>com.dremio.exec.planner.logical.serialization\<close>): a builder that assembles an
  injection mapping and a context, and an engine that registers serializers with a Kryo
  instance and reads and writes plans through it.

  A Java \<open>Class\<close> object is identified by its fully qualified name. The class hierarchy
  is the ambient class path: it is a parameter, the list of all proper supertypes
  (superclasses and interfaces, transitively) of each class.
\<close>

type_synonym TypeId = string

type_synonym ClassHierarchy = "TypeId \<Rightarrow> TypeId list"

text \<open>\<open>base.class.isAssignableFrom(type)\<close>: \<open>type\<close> is \<open>base\<close> or one of its subtypes.\<close>

definition isAssignableFrom :: "ClassHierarchy \<Rightarrow> TypeId \<Rightarrow> TypeId \<Rightarrow> bool" where
  "isAssignableFrom h base type \<longleftrightarrow> type = base \<or> base \<in> set (h type)"

definition SqlOperator_class :: TypeId where
  "SqlOperator_class = ''org.apache.calcite.sql.SqlOperator''"

definition RelDataType_class :: TypeId where
  "RelDataType_class = ''org.apache.calcite.rel.type.RelDataType''"

definition StoragePlugin_class :: TypeId where
  "StoragePlugin_class = ''com.dremio.exec.store.StoragePlugin''"

definition Writable_class :: TypeId where
  "Writable_class = ''org.apache.hadoop.io.Writable''"

definition RelOptCluster_class :: TypeId where
  "RelOptCluster_class = ''org.apache.calcite.plan.RelOptCluster''"

definition CalciteCatalogReader_class :: TypeId where
  "CalciteCatalogReader_class = ''org.apache.calcite.prepare.CalciteCatalogReader''"

definition StoragePluginRegistry_class :: TypeId where
  "StoragePluginRegistry_class = ''com.dremio.exec.store.StoragePluginRegistry''"

definition RelOptTableImpl_class :: TypeId where
  "RelOptTableImpl_class = ''org.apache.calcite.prepare.RelOptTableImpl''"

definition RelOptNamespaceTable_class :: TypeId where
  "RelOptNamespaceTable_class = ''com.dremio.exec.store.RelOptNamespaceTable''"

definition TableMetadata_class :: TypeId where
  "TableMetadata_class = ''com.dremio.exec.store.TableMetadata''"

text \<open>
  The environment objects are opaque to the program: each is an object reference, with
  the one getter the program calls (\<open>getTypeFactory\<close>) and, for the plugin registry,
  the plugins it holds by name.
\<close>

type_synonym ObjRef = nat

datatype RelOptCluster = RelOptCluster (clusterRef: ObjRef) (getTypeFactory: ObjRef)

datatype CalciteCatalogReader = CalciteCatalogReader (catalogRef: ObjRef)

datatype StoragePluginRegistry =
  StoragePluginRegistry (registryRef: ObjRef) (plugins: "(string \<times> ObjRef) list")

text \<open>An injected value is a Java \<open>Object\<close>: one of the environment objects, or another.\<close>

datatype Instance =
    ClusterInstance RelOptCluster
  | CatalogInstance CalciteCatalogReader
  | RegistryInstance StoragePluginRegistry
  | OtherInstance ObjRef

text \<open>Java \<open>int\<close> is a 32-bit two's complement integer.\<close>

type_synonym jint = "32 word"

text \<open>\<open>Math.min\<close> on \<open>int\<close> compares signed values.\<close>

definition Math_min :: "jint \<Rightarrow> jint \<Rightarrow> jint" where
  "Math_min a b = (if a \<le>s b then a else b)"

datatype error =
    NullPointerException string
  | IllegalArgumentException
  | AmbiguousInjection
  | ResolutionError TypeId
  | UnknownOperator string
  | UnknownPlugin string
  | NotSerializable TypeId
  | StructuralDecodeError

section \<open>Injections\<close>

text \<open>\<open>Injection.of(type, value)\<close>: the pair of a class and the instance injected for it.\<close>

record Injection =
  inj_type :: TypeId
  inj_value :: Instance

definition Injection_of :: "TypeId \<Rightarrow> Instance \<Rightarrow> Injection" where
  "Injection_of type v = \<lparr>inj_type = type, inj_value = v\<rparr>"

datatype InjectionMapping = InjectionMapping (entries: "(TypeId \<times> Instance) list")

text \<open>
  Modelled from the spec: \<open>InjectionMapping.of\<close> (the class \<open>InjectionMapping\<close> is
  not among the source files). The spec, 4.1: building from entries fails if two entries
  share the same TypeId; it is rejected at construction, not silently overwritten.
\<close>

definition InjectionMapping_of :: "Injection list \<Rightarrow> error + InjectionMapping" where
  "InjectionMapping_of injs =
     (if distinct (map inj_type injs)
      then Inr (InjectionMapping (map (\<lambda>i. (inj_type i, inj_value i)) injs))
      else Inl AmbiguousInjection)"

text \<open>
  Modelled from the spec: the lookup of \<open>InjectionMapping\<close> (not among the source
  files). The spec, 4.1: \<open>lookup(TypeId) -> Option<Instance>\<close> is pure and total;
  absence is a valid outcome.
\<close>

definition lookup :: "InjectionMapping \<Rightarrow> TypeId \<Rightarrow> Instance option" where
  "lookup m t = map_of (entries m) t"

section \<open>The context, the serializers and the Kryo registry\<close>

text \<open>\<open>RelSerializer.SerializerContext\<close>, with its getters as the fields.\<close>

record SerializerContext =
  getCluster :: RelOptCluster
  getCatalog :: CalciteCatalogReader
  getRegistry :: StoragePluginRegistry
  getOutputBufferSize :: jint

text \<open>
  A serializer is the strategy object with the arguments of its constructor (the Kryo
  instance, which every one of them receives, is left out).
  \<open>KryoBuiltinSerializer\<close> stands for what Kryo's own default factory makes.
\<close>

datatype Serializer =
    SqlOperatorSerializer TypeId
  | RelDataTypeSerializer TypeId ObjRef
  | StoragePluginSerializer StoragePluginRegistry
  | WritableSerializer
  | InjectingSerializer TypeId InjectionMapping
  | RelOptTableImplSerializer CalciteCatalogReader
  | RelOptNamespaceTableSerializer CalciteCatalogReader RelOptCluster
  | TableMetadataSerializer CalciteCatalogReader
  | KryoBuiltinSerializer TypeId

text \<open>
  The anonymous \<open>SerializerFactory\<close> of \<open>setup\<close> is a closure: it captures the local
  \<open>pluginSerializer\<close> and, through \<open>this\<close>, the context and the mapping of the
  engine. It is kept as data, the captured values as its arguments.
\<close>

datatype SerializerFactory =
    KryoBuiltinFactory
  | RelSerializerFactory Serializer SerializerContext InjectionMapping

fun makeSerializer :: "ClassHierarchy \<Rightarrow> SerializerFactory \<Rightarrow> TypeId \<Rightarrow> Serializer" where
  "makeSerializer h (RelSerializerFactory pluginSerializer context mapping) type =
     (if isAssignableFrom h SqlOperator_class type then SqlOperatorSerializer type
      else if isAssignableFrom h RelDataType_class type
        then RelDataTypeSerializer type (getTypeFactory (getCluster context))
      else if isAssignableFrom h StoragePlugin_class type then pluginSerializer
      else if isAssignableFrom h Writable_class type then WritableSerializer
      else InjectingSerializer type mapping)"
| "makeSerializer h KryoBuiltinFactory type = KryoBuiltinSerializer type"

datatype InstantiatorStrategy = KryoInitialStrategy | DefaultWithStdInstantiator

text \<open>
  The Kryo instance, as far as \<open>setup\<close> configures it: the two settings, the default
  serializer factory and the table of default serializers added per class.
\<close>

record Kryo =
  warnUnregisteredClasses :: bool
  instantiatorStrategy :: InstantiatorStrategy
  defaultSerializer :: SerializerFactory
  defaultSerializers :: "(TypeId \<times> Serializer) list"

definition setWarnUnregisteredClasses :: "bool \<Rightarrow> Kryo \<Rightarrow> Kryo" where
  "setWarnUnregisteredClasses w k = k\<lparr>warnUnregisteredClasses := w\<rparr>"

definition setInstantiatorStrategy :: "InstantiatorStrategy \<Rightarrow> Kryo \<Rightarrow> Kryo" where
  "setInstantiatorStrategy s k = k\<lparr>instantiatorStrategy := s\<rparr>"

definition setDefaultSerializer :: "SerializerFactory \<Rightarrow> Kryo \<Rightarrow> Kryo" where
  "setDefaultSerializer f k = k\<lparr>defaultSerializer := f\<rparr>"

definition addDefaultSerializer :: "TypeId \<Rightarrow> Serializer \<Rightarrow> Kryo \<Rightarrow> Kryo" where
  "addDefaultSerializer type s k = k\<lparr>defaultSerializers := defaultSerializers k @ [(type, s)]\<rparr>"

text \<open>
  The four register helpers of \<open>setup\<close> (\<open>ImmutableCollectionSerializers\<close>,
  \<open>RelTraitDefSerializers\<close>, \<open>RelTraitSerializers\<close>, \<open>JavaSerializers\<close>) are not
  among the source files. Each receives the Kryo instance and may configure it in any
  way: what each does to it is a parameter.
\<close>

record Registrations =
  ImmutableCollectionSerializers_register :: "Kryo \<Rightarrow> Kryo"
  RelTraitDefSerializers_register :: "Kryo \<Rightarrow> Kryo"
  RelTraitSerializers_register :: "Kryo \<Rightarrow> Kryo"
  JavaSerializers_register :: "Kryo \<Rightarrow> Kryo"

section \<open>Calls of the default factory, with their state\<close>

text \<open>
  \<open>makeSerializer\<close> as a method call. A call receives the Kryo instance, whose
  contents other calls may have changed, and the serializers it makes with \<open>new\<close> or
  a static factory are new objects; the plugin serializer is the one object the factory
  captured. The state of a call is what the Kryo instance holds and how many objects
  have been allocated; the result is the reference and the strategy (the class of the
  serializer with the arguments of its constructor, which keeps the reference to the
  Kryo instance and not its contents). \<open>run_calls\<close> is a sequence of resolutions.
\<close>

record CallState =
  kryoContents :: Kryo
  allocations :: nat

datatype SerializerRef = Captured | Fresh nat

definition new_object ::
  "Serializer \<Rightarrow> CallState \<Rightarrow> (SerializerRef \<times> Serializer) \<times> CallState" where
  "new_object ser st = ((Fresh (allocations st), ser), st\<lparr>allocations := Suc (allocations st)\<rparr>)"

fun makeSerializer_call ::
  "ClassHierarchy \<Rightarrow> SerializerFactory \<Rightarrow> TypeId \<Rightarrow> CallState \<Rightarrow>
   (SerializerRef \<times> Serializer) \<times> CallState" where
  "makeSerializer_call h (RelSerializerFactory pluginSerializer context mapping) type st =
     (if isAssignableFrom h SqlOperator_class type
        then new_object (SqlOperatorSerializer type) st
      else if isAssignableFrom h RelDataType_class type
        then new_object (RelDataTypeSerializer type (getTypeFactory (getCluster context))) st
      else if isAssignableFrom h StoragePlugin_class type then ((Captured, pluginSerializer), st)
      else if isAssignableFrom h Writable_class type then new_object WritableSerializer st
      else new_object (InjectingSerializer type mapping) st)"
| "makeSerializer_call h KryoBuiltinFactory type st = new_object (KryoBuiltinSerializer type) st"

definition strategy_of :: "(SerializerRef \<times> Serializer) \<times> CallState \<Rightarrow> Serializer" where
  "strategy_of r = snd (fst r)"

fun run_calls :: "ClassHierarchy \<Rightarrow> SerializerFactory \<Rightarrow> TypeId list \<Rightarrow> CallState \<Rightarrow> CallState" where
  "run_calls h f [] st = st"
| "run_calls h f (t # ts) st = run_calls h f ts (snd (makeSerializer_call h f t st))"

section \<open>The engine\<close>

record RelSerializer =
  serializerKryo :: Kryo
  serializerMapping :: InjectionMapping
  getContext :: SerializerContext

text \<open>
  \<open>RelSerializer.setup\<close> configures the Kryo instance it is given, statement by
  statement. Kryo is mutable: the configured instance is the result.
\<close>

definition RelSerializer_setup :: "Registrations \<Rightarrow> RelSerializer \<Rightarrow> Kryo \<Rightarrow> Kryo" where
  "RelSerializer_setup regs this kryo =
    (let k1 = setWarnUnregisteredClasses False kryo;
         k2 = setInstantiatorStrategy DefaultWithStdInstantiator k1;
         pluginSerializer = StoragePluginSerializer (getRegistry (getContext this));
         k3 = setDefaultSerializer
                (RelSerializerFactory pluginSerializer (getContext this) (serializerMapping this)) k2;
         k4 = ImmutableCollectionSerializers_register regs k3;
         k5 = RelTraitDefSerializers_register regs k4;
         k6 = RelTraitSerializers_register regs k5;
         k7 = JavaSerializers_register regs k6;
         k8 = addDefaultSerializer RelOptTableImpl_class
                (RelOptTableImplSerializer (getCatalog (getContext this))) k7;
         k9 = addDefaultSerializer RelOptNamespaceTable_class
                (RelOptNamespaceTableSerializer (getCatalog (getContext this))
                   (getCluster (getContext this))) k8
     in addDefaultSerializer TableMetadata_class
          (TableMetadataSerializer (getCatalog (getContext this))) k9)"

text \<open>
  \<open>serialize\<close> allocates its output stream first, with the buffer size of the context:
  \<open>new ByteArrayOutputStream(context.getOutputBufferSize())\<close>.
\<close>

definition serialize_allocation :: "RelSerializer \<Rightarrow> jint" where
  "serialize_allocation this = getOutputBufferSize (getContext this)"

section \<open>The builder\<close>

text \<open>\<open>MAX_BUFFER_SIZE = 2 << 15\<close>.\<close>

definition MAX_BUFFER_SIZE :: jint where
  "MAX_BUFFER_SIZE = push_bit 15 2"

record Builder =
  injections :: "Injection list"
  kryo :: Kryo
  cluster :: RelOptCluster
  catalog :: CalciteCatalogReader
  registry :: StoragePluginRegistry
  outputBufferSize :: jint

text \<open>
  The constructor. A Java reference may be null: each argument is an option, and
  \<open>Preconditions.checkNotNull\<close> throws on \<open>None\<close>, in the order of the four
  assignments. The field initialisers give the empty list and \<open>MAX_BUFFER_SIZE\<close>.
\<close>

definition checkNotNull :: "'a option \<Rightarrow> string \<Rightarrow> error + 'a" where
  "checkNotNull reference msg =
     (case reference of None \<Rightarrow> Inl (NullPointerException msg) | Some x \<Rightarrow> Inr x)"

definition newBuilder ::
  "Kryo option \<Rightarrow> RelOptCluster option \<Rightarrow> CalciteCatalogReader option \<Rightarrow>
   StoragePluginRegistry option \<Rightarrow> error + Builder" where
  "newBuilder kryo0 cluster0 catalog0 registry0 =
     (case checkNotNull kryo0 ''kryo is required'' of Inl e \<Rightarrow> Inl e | Inr k \<Rightarrow>
     (case checkNotNull cluster0 ''cluster is required'' of Inl e \<Rightarrow> Inl e | Inr c \<Rightarrow>
     (case checkNotNull catalog0 ''catalog is required'' of Inl e \<Rightarrow> Inl e | Inr cat \<Rightarrow>
     (case checkNotNull registry0 ''registry is required'' of Inl e \<Rightarrow> Inl e | Inr r \<Rightarrow>
        Inr \<lparr>injections = [], kryo = k, cluster = c, catalog = cat, registry = r,
             outputBufferSize = MAX_BUFFER_SIZE\<rparr>))))"

definition withInjection :: "Injection \<Rightarrow> Builder \<Rightarrow> Builder" where
  "withInjection injection b = b\<lparr>injections := injections b @ [injection]\<rparr>"

definition withInjection_of :: "TypeId \<Rightarrow> Instance \<Rightarrow> Builder \<Rightarrow> Builder" where
  "withInjection_of type v b = withInjection (Injection_of type v) b"

definition setOutputBufferSize :: "jint \<Rightarrow> Builder \<Rightarrow> error + Builder" where
  "setOutputBufferSize n b =
     (if 0 <s n then Inr (b\<lparr>outputBufferSize := n\<rparr>) else Inl IllegalArgumentException)"

text \<open>
  \<open>build\<close>. Its first three statements add the injections of the passed instances to
  the builder's own list; \<open>inject_passed\<close> is the builder after them. The builder is
  mutable and outlives the call, also when \<open>InjectionMapping.of\<close> throws: the result
  is the builder as the call leaves it, and the engine or the error. The Kryo instance
  is shared by the builder and the engine, so both hold it as \<open>setup\<close> left it.
  \<open>InjectionMapping.of\<close> is not among the source files: \<open>build_with\<close> takes it as
  a parameter, and \<open>build\<close> is \<open>build_with\<close> at the contract the spec gives it.
\<close>

definition inject_passed :: "Builder \<Rightarrow> Builder" where
  "inject_passed b =
     (let b1 = withInjection_of RelOptCluster_class (ClusterInstance (cluster b)) b;
          b2 = withInjection_of CalciteCatalogReader_class (CatalogInstance (catalog b1)) b1
      in withInjection_of StoragePluginRegistry_class (RegistryInstance (registry b2)) b2)"

definition build_with ::
  "(Injection list \<Rightarrow> error + InjectionMapping) \<Rightarrow> Registrations \<Rightarrow> Builder \<Rightarrow>
   Builder \<times> (error + RelSerializer)" where
  "build_with mapping_of regs b =
     (let b3 = inject_passed b
      in case mapping_of (injections b3) of
           Inl e \<Rightarrow> (b3, Inl e)
         | Inr mapping \<Rightarrow>
             (let bufferSize = Math_min (outputBufferSize b3) MAX_BUFFER_SIZE;
                  context = \<lparr>getCluster = cluster b3, getCatalog = catalog b3,
                             getRegistry = registry b3, getOutputBufferSize = bufferSize\<rparr>;
                  serializer = \<lparr>serializerKryo = kryo b3, serializerMapping = mapping,
                                getContext = context\<rparr>;
                  kryo' = RelSerializer_setup regs serializer (kryo b3)
              in (b3\<lparr>kryo := kryo'\<rparr>, Inr (serializer\<lparr>serializerKryo := kryo'\<rparr>))))"

definition build :: "Registrations \<Rightarrow> Builder \<Rightarrow> Builder \<times> (error + RelSerializer)" where
  "build regs b = build_with InjectionMapping_of regs b"

text \<open>The three injections that \<open>build\<close> adds, in the order it adds them.\<close>

definition passed_injections :: "Builder \<Rightarrow> Injection list" where
  "passed_injections b =
     [Injection_of RelOptCluster_class (ClusterInstance (cluster b)),
      Injection_of CalciteCatalogReader_class (CatalogInstance (catalog b)),
      Injection_of StoragePluginRegistry_class (RegistryInstance (registry b))]"

section \<open>Payload graphs and their wire form\<close>

text \<open>
  Modelled from the spec: the payload graph. The serializers that encode and decode it
  (\<open>InjectingSerializer\<close>, \<open>SqlOperatorSerializer\<close>, \<open>RelDataTypeSerializer\<close>,
  \<open>StoragePluginSerializer\<close>, \<open>WritableSerializer\<close>) are not among the source files.
  The spec, 1 and 4.3 to 4.4: a tree of typed nodes. A node is a plain value, an object
  of an uncategorised type with its fields, a non-serializable environment-bound object
  (its state is not part of the graph), an operator descriptor with its canonical name,
  a data-type descriptor (kind, precision, scale), a plugin handle (its name and the
  live plugin), or a framework writable with its bytes. The variant is the category.
\<close>

datatype Payload =
    Plain int
  | Struct TypeId "Payload list"
  | EnvObject TypeId Instance
  | OperatorDesc string
  | DataTypeDesc string int int
  | PluginHandle string ObjRef
  | WritableValue "8 word list"

text \<open>
  Modelled from the spec: the wire form. The spec fixes no byte layout; the tokens are
  what 4.3, 4.4 and 4.6 say is written: the type of a node encoded by the injecting
  fallback, its "injected" or "structural" tag (the structural tag with the number of
  fields that follow), an operator's name, a data type's description, a plugin's name,
  and the length-prefixed bytes of a writable.
\<close>

datatype Token =
    PlainToken int
  | TypeToken TypeId
  | InjectedTag
  | StructuralTag nat
  | OperatorToken string
  | DataTypeToken string int int
  | PluginToken string
  | WritableToken nat "8 word list"

text \<open>
  Modelled from the spec: encoding (4.3, 4.4). The injecting fallback writes the
  "injected" tag and nothing else when the type of the value is in the injection
  mapping, and otherwise the "structural" tag followed by the encoding of every field.
  An environment-bound object has no field in the graph: outside the mapping it is
  written as a structure without fields.
\<close>

fun writeValue :: "InjectionMapping \<Rightarrow> Payload \<Rightarrow> Token list" where
  "writeValue m (Plain i) = [PlainToken i]"
| "writeValue m (Struct t fs) =
     TypeToken t #
       (case lookup m t of
          Some _ \<Rightarrow> [InjectedTag]
        | None \<Rightarrow> StructuralTag (length fs) # concat (map (writeValue m) fs))"
| "writeValue m (EnvObject t i) =
     TypeToken t # (case lookup m t of Some _ \<Rightarrow> [InjectedTag] | None \<Rightarrow> [StructuralTag 0])"
| "writeValue m (OperatorDesc n) = [OperatorToken n]"
| "writeValue m (DataTypeDesc k p sc) = [DataTypeToken k p sc]"
| "writeValue m (PluginHandle n p) = [PluginToken n]"
| "writeValue m (WritableValue bs) = [WritableToken (length bs) bs]"

text \<open>
  Modelled from the spec: decoding (4.3, 4.4, 7). An "injected" tag yields the instance
  the decode-side mapping holds for the type, and fails with a resolution error when it
  holds none; a "structural" tag yields a new instance with its fields read in turn. An
  operator or a plugin is resolved by name and fails when the name is unknown; the known
  operators \<open>ops\<close> are a parameter, the plugins are those of the context's registry. A
  truncated or malformed stream is a structural decode error. The reader takes fuel
  (one unit per level of nesting) and fails when it runs out.
\<close>

fun readValue :: "string list \<Rightarrow> RelSerializer \<Rightarrow> nat \<Rightarrow> Token list \<Rightarrow> error + (Payload \<times> Token list)"
  and readFields :: "string list \<Rightarrow> RelSerializer \<Rightarrow> nat \<Rightarrow> nat \<Rightarrow> Token list \<Rightarrow> error + (Payload list \<times> Token list)"
where
  "readValue ops s 0 ts = Inl StructuralDecodeError"
| "readValue ops s (Suc k) (PlainToken i # ts) = Inr (Plain i, ts)"
| "readValue ops s (Suc k) (TypeToken t # InjectedTag # ts) =
     (case lookup (serializerMapping s) t of
        None \<Rightarrow> Inl (ResolutionError t)
      | Some i \<Rightarrow> Inr (EnvObject t i, ts))"
| "readValue ops s (Suc k) (TypeToken t # StructuralTag n # ts) =
     (case readFields ops s k n ts of
        Inl e \<Rightarrow> Inl e
      | Inr (fs, rest) \<Rightarrow> Inr (Struct t fs, rest))"
| "readValue ops s (Suc k) (OperatorToken n # ts) =
     (if n \<in> set ops then Inr (OperatorDesc n, ts) else Inl (UnknownOperator n))"
| "readValue ops s (Suc k) (DataTypeToken kd p sc # ts) = Inr (DataTypeDesc kd p sc, ts)"
| "readValue ops s (Suc k) (PluginToken n # ts) =
     (case map_of (plugins (getRegistry (getContext s))) n of
        None \<Rightarrow> Inl (UnknownPlugin n)
      | Some p \<Rightarrow> Inr (PluginHandle n p, ts))"
| "readValue ops s (Suc k) (WritableToken n bs # ts) =
     (if length bs = n then Inr (WritableValue bs, ts) else Inl StructuralDecodeError)"
| "readValue ops s (Suc k) _ = Inl StructuralDecodeError"
| "readFields ops s k 0 ts = Inr ([], ts)"
| "readFields ops s k (Suc n) ts =
     (case readValue ops s k ts of
        Inl e \<Rightarrow> Inl e
      | Inr (f, rest) \<Rightarrow>
          (case readFields ops s k n rest of
             Inl e \<Rightarrow> Inl e
           | Inr (fs, rest') \<Rightarrow> Inr (f # fs, rest')))"

text \<open>
  Modelled from the spec: Kryo's \<open>writeObject\<close> on the engine (library code, not among
  the source files). The spec, 4.6: the value is written by the strategy of each node,
  consulting the engine's injection mapping.
\<close>

definition writeObject :: "RelSerializer \<Rightarrow> Payload \<Rightarrow> Token list" where
  "writeObject this v = writeValue (serializerMapping this) v"

text \<open>
  Modelled from the spec: Kryo's \<open>readObject\<close> on the engine (library code, not among
  the source files). The spec, 4.6: the value is read along the same path. The reader's
  fuel is the length of the input: every level of nesting consumes a token.
\<close>

definition readObject :: "string list \<Rightarrow> RelSerializer \<Rightarrow> Token list \<Rightarrow> error + Payload" where
  "readObject ops this data =
     (case readValue ops this (length data) data of
        Inl e \<Rightarrow> Inl e
      | Inr (v, rest) \<Rightarrow> Inr v)"

text \<open>
  \<open>SerializationWrapper\<close>, the envelope: an object with the one field \<open>value\<close>.
  \<open>getValue\<close> reads the field; what was read must be a wrapper.
\<close>

definition SerializationWrapper_class :: TypeId where
  "SerializationWrapper_class =
     ''com.dremio.exec.planner.logical.serialization.RelSerializer$SerializationWrapper''"

definition SerializationWrapper_of :: "Payload \<Rightarrow> Payload" where
  "SerializationWrapper_of v = Struct SerializationWrapper_class [v]"

fun getValue :: "Payload \<Rightarrow> error + Payload" where
  "getValue (Struct t [v]) =
     (if t = SerializationWrapper_class then Inr v else Inl StructuralDecodeError)"
| "getValue _ = Inl StructuralDecodeError"

text \<open>\<open>serialize\<close> and \<open>deserialize\<close> of the engine, over the envelope.\<close>

definition serialize :: "RelSerializer \<Rightarrow> Payload \<Rightarrow> Token list" where
  "serialize this plan = writeObject this (SerializationWrapper_of plan)"

definition deserialize :: "string list \<Rightarrow> RelSerializer \<Rightarrow> Token list \<Rightarrow> error + Payload" where
  "deserialize ops this data =
     (case readObject ops this data of
        Inl e \<Rightarrow> Inl e
      | Inr plan \<Rightarrow> getValue plan)"

text \<open>The first error of a list of results, or all the values.\<close>

fun sequence :: "(error + 'a) list \<Rightarrow> error + 'a list" where
  "sequence [] = Inr []"
| "sequence (Inl e # rs) = Inl e"
| "sequence (Inr x # rs) = (case sequence rs of Inl e \<Rightarrow> Inl e | Inr xs \<Rightarrow> Inr (x # xs))"

section \<open>The engine through Kryo's registry\<close>

text \<open>
  Lines 115 and 122 call only the Kryo instance: Kryo resolves the strategy of every
  object it writes or reads, and the injection mapping is reached through the
  \<open>InjectingSerializer\<close> that the default factory made. This section writes that
  resolution out. On an engine as \<open>build\<close> leaves it and for objects of uncategorised
  types it writes what \<open>writeValue\<close> writes (lemma \<open>kryoWrite_admitted\<close>).
\<close>

text \<open>
  Modelled from the spec: the registry's \<open>resolve\<close> (Kryo's lookup of the serializer
  of a class is library code, not among the source files). The spec, 4.2: a
  special-cased type matches by exact TypeId and takes precedence; otherwise the default
  factory, with its category predicates and its fallback, decides. The statements below
  use it only for types of which no special-cased class is the type or a supertype,
  where matching by exact TypeId and matching by assignability give the same.
\<close>

definition resolve :: "ClassHierarchy \<Rightarrow> Kryo \<Rightarrow> TypeId \<Rightarrow> Serializer" where
  "resolve h k type =
     (case map_of (defaultSerializers k) type of
        Some s \<Rightarrow> s
      | None \<Rightarrow> makeSerializer h (defaultSerializer k) type)"

text \<open>
  Modelled from the spec: what a resolved strategy does with an object that has fields
  (4.3). The injecting fallback writes the "injected" tag when the type is in its
  mapping and the "structural" tag otherwise; Kryo's own field serializer never injects;
  a category or special-case strategy does not encode such an object.
\<close>

fun fallbackTag :: "Serializer \<Rightarrow> TypeId \<Rightarrow> error + bool" where
  "fallbackTag (InjectingSerializer t' m) t = Inr (lookup m t \<noteq> None)"
| "fallbackTag (KryoBuiltinSerializer t') t = Inr False"
| "fallbackTag ser t = Inl (NotSerializable t)"



text \<open>
  Modelled from the spec: Kryo's \<open>writeObject\<close>, each object written by the strategy
  the registry resolves for its type (4.6). Plain values and category values are written
  as \<open>writeValue\<close> writes them.
\<close>

fun kryoWrite :: "ClassHierarchy \<Rightarrow> Kryo \<Rightarrow> Payload \<Rightarrow> error + Token list" where
  "kryoWrite h k (Plain i) = Inr [PlainToken i]"
| "kryoWrite h k (Struct t fs) =
     (case fallbackTag (resolve h k t) t of
        Inl e \<Rightarrow> Inl e
      | Inr True \<Rightarrow> Inr [TypeToken t, InjectedTag]
      | Inr False \<Rightarrow>
          (case sequence (map (kryoWrite h k) fs) of
             Inl e \<Rightarrow> Inl e
           | Inr tss \<Rightarrow> Inr (TypeToken t # StructuralTag (length fs) # concat tss)))"
| "kryoWrite h k (EnvObject t i) =
     (case fallbackTag (resolve h k t) t of
        Inl e \<Rightarrow> Inl e
      | Inr True \<Rightarrow> Inr [TypeToken t, InjectedTag]
      | Inr False \<Rightarrow> Inr [TypeToken t, StructuralTag 0])"
| "kryoWrite h k (OperatorDesc n) = Inr [OperatorToken n]"
| "kryoWrite h k (DataTypeDesc kd p sc) = Inr [DataTypeToken kd p sc]"
| "kryoWrite h k (PluginHandle n p) = Inr [PluginToken n]"
| "kryoWrite h k (WritableValue bs) = Inr [WritableToken (length bs) bs]"


text \<open>
  \<open>serialize\<close> and \<open>deserialize\<close> of the engine with the calls of lines 115 and 122
  on the engine's Kryo instance. Writing can fail, reading takes the length of the
  input as fuel.
\<close>

definition serialize_kryo :: "ClassHierarchy \<Rightarrow> RelSerializer \<Rightarrow> Payload \<Rightarrow> error + Token list" where
  "serialize_kryo h this plan = kryoWrite h (serializerKryo this) (SerializationWrapper_of plan)"


section \<open>Notions the statements use\<close>

text \<open>
  What reading with the engine \<open>sd\<close> makes of a graph written under the mapping
  \<open>me\<close>, node by node, stated on the graph without the wire form.
\<close>

fun reconstruct :: "InjectionMapping \<Rightarrow> string list \<Rightarrow> RelSerializer \<Rightarrow> Payload \<Rightarrow> error + Payload" where
  "reconstruct me ops sd (Plain i) = Inr (Plain i)"
| "reconstruct me ops sd (Struct t fs) =
     (case lookup me t of
        Some _ \<Rightarrow>
          (case lookup (serializerMapping sd) t of
             None \<Rightarrow> Inl (ResolutionError t)
           | Some i \<Rightarrow> Inr (EnvObject t i))
      | None \<Rightarrow>
          (case sequence (map (reconstruct me ops sd) fs) of
             Inl e \<Rightarrow> Inl e
           | Inr fs' \<Rightarrow> Inr (Struct t fs')))"
| "reconstruct me ops sd (EnvObject t i) =
     (case lookup me t of
        Some _ \<Rightarrow>
          (case lookup (serializerMapping sd) t of
             None \<Rightarrow> Inl (ResolutionError t)
           | Some j \<Rightarrow> Inr (EnvObject t j))
      | None \<Rightarrow> Inr (Struct t []))"
| "reconstruct me ops sd (OperatorDesc n) =
     (if n \<in> set ops then Inr (OperatorDesc n) else Inl (UnknownOperator n))"
| "reconstruct me ops sd (DataTypeDesc k p sc) = Inr (DataTypeDesc k p sc)"
| "reconstruct me ops sd (PluginHandle n p) =
     (case map_of (plugins (getRegistry (getContext sd))) n of
        None \<Rightarrow> Inl (UnknownPlugin n)
      | Some q \<Rightarrow> Inr (PluginHandle n q))"
| "reconstruct me ops sd (WritableValue bs) = Inr (WritableValue bs)"


text \<open>
  A type that falls to the injecting fallback: it is in none of the four categories, and
  no class with a default serializer of its own is the type or one of its supertypes.
\<close>

definition falls_back :: "ClassHierarchy \<Rightarrow> Kryo \<Rightarrow> TypeId \<Rightarrow> bool" where
  "falls_back h k t \<longleftrightarrow>
     \<not> isAssignableFrom h SqlOperator_class t \<and>
     \<not> isAssignableFrom h RelDataType_class t \<and>
     \<not> isAssignableFrom h StoragePlugin_class t \<and>
     \<not> isAssignableFrom h Writable_class t \<and>
     list_all (\<lambda>e. \<not> isAssignableFrom h (fst e) t) (defaultSerializers k)"

text \<open>
  A graph built only from plain and structural values (objects of types that fall to
  the fallback), environment-bound objects whose type is in the engine's mapping, known
  operators and registered plugins.
\<close>

fun admitted :: "ClassHierarchy \<Rightarrow> string list \<Rightarrow> RelSerializer \<Rightarrow> Payload \<Rightarrow> bool" where
  "admitted h ops s (Plain i) = True"
| "admitted h ops s (Struct t fs) =
     (falls_back h (serializerKryo s) t \<and> list_all (admitted h ops s) fs)"
| "admitted h ops s (EnvObject t i) =
     (falls_back h (serializerKryo s) t \<and> lookup (serializerMapping s) t \<noteq> None)"
| "admitted h ops s (OperatorDesc n) = (n \<in> set ops)"
| "admitted h ops s (DataTypeDesc k p sc) = True"
| "admitted h ops s (PluginHandle n p) =
     (map_of (plugins (getRegistry (getContext s))) n = Some p)"
| "admitted h ops s (WritableValue bs) = True"


text \<open>The engine's Kryo instance holds the default factory that \<open>setup\<close> installs.\<close>

definition factory_installed :: "RelSerializer \<Rightarrow> bool" where
  "factory_installed s \<longleftrightarrow>
     defaultSerializer (serializerKryo s) =
       RelSerializerFactory (StoragePluginSerializer (getRegistry (getContext s)))
         (getContext s) (serializerMapping s)"


text \<open>
  \<open>exposed me x G\<close>: writing \<open>G\<close> under the mapping \<open>me\<close> writes the "injected" tag
  for a node of type \<open>x\<close>.
\<close>

fun exposed :: "InjectionMapping \<Rightarrow> TypeId \<Rightarrow> Payload \<Rightarrow> bool" where
  "exposed me x (Struct t fs) =
     (case lookup me t of Some _ \<Rightarrow> t = x | None \<Rightarrow> list_ex (exposed me x) fs)"
| "exposed me x (EnvObject t i) = (lookup me t \<noteq> None \<and> t = x)"
| "exposed me x v = False"

text \<open>The resolution errors of the spec's taxonomy (7).\<close>

fun resolution_error :: "error \<Rightarrow> bool" where
  "resolution_error (ResolutionError t) = True"
| "resolution_error (UnknownOperator n) = True"
| "resolution_error (UnknownPlugin n) = True"
| "resolution_error e = False"

section \<open>The selection rule of the spec\<close>

text \<open>
  The spec, 4.2, in its words: walk the fixed, ordered list of category predicates;
  return the first matching category's strategy; if none match, return the fallback
  strategy. It is compared with \<open>makeSerializer\<close> below.
\<close>

fun first_match :: "(('t \<Rightarrow> bool) \<times> 's) list \<Rightarrow> 's \<Rightarrow> 't \<Rightarrow> 's" where
  "first_match [] fallback t = fallback"
| "first_match ((p, s) # rest) fallback t = (if p t then s else first_match rest fallback t)"

section \<open>Concrete inputs\<close>

definition example_kryo :: Kryo where
  "example_kryo = \<lparr>warnUnregisteredClasses = True, instantiatorStrategy = KryoInitialStrategy,
     defaultSerializer = KryoBuiltinFactory, defaultSerializers = []\<rparr>"

definition example_cluster :: RelOptCluster where
  "example_cluster = RelOptCluster 1 2"

definition example_catalog :: CalciteCatalogReader where
  "example_catalog = CalciteCatalogReader 3"

definition example_registry :: StoragePluginRegistry where
  "example_registry = StoragePluginRegistry 4 [(''hdfs'', 5)]"

definition example_builder :: Builder where
  "example_builder = \<lparr>injections = [], kryo = example_kryo, cluster = example_cluster,
     catalog = example_catalog, registry = example_registry,
     outputBufferSize = MAX_BUFFER_SIZE\<rparr>"

definition example_regs :: Registrations where
  "example_regs = \<lparr>ImmutableCollectionSerializers_register = (\<lambda>k. k),
     RelTraitDefSerializers_register = (\<lambda>k. k),
     RelTraitSerializers_register = (\<lambda>k. k),
     JavaSerializers_register = (\<lambda>k. k)\<rparr>"

text \<open>A class hierarchy with one operator class, one writable class and one plain class.\<close>

definition example_hierarchy :: ClassHierarchy where
  "example_hierarchy t =
     (if t = ''SqlBinaryOperator'' then [''org.apache.calcite.sql.SqlOperator'', ''java.lang.Object'']
      else if t = ''Text'' then [''org.apache.hadoop.io.Writable'', ''java.lang.Object'']
      else [''java.lang.Object''])"

definition example_mapping :: InjectionMapping where
  "example_mapping = InjectionMapping
     [(RelOptCluster_class, ClusterInstance example_cluster),
      (CalciteCatalogReader_class, CatalogInstance example_catalog),
      (StoragePluginRegistry_class, RegistryInstance example_registry)]"

definition example_context :: SerializerContext where
  "example_context = \<lparr>getCluster = example_cluster, getCatalog = example_catalog,
     getRegistry = example_registry, getOutputBufferSize = MAX_BUFFER_SIZE\<rparr>"

definition example_factory :: SerializerFactory where
  "example_factory =
     RelSerializerFactory (StoragePluginSerializer example_registry) example_context example_mapping"

definition engine_with :: "InjectionMapping \<Rightarrow> RelSerializer" where
  "engine_with m =
     \<lparr>serializerKryo =
        RelSerializer_setup example_regs
          \<lparr>serializerKryo = example_kryo, serializerMapping = m,
           getContext = example_context\<rparr> example_kryo,
      serializerMapping = m, getContext = example_context\<rparr>"

definition example_engine :: RelSerializer where
  "example_engine = engine_with example_mapping"

definition session_engine :: RelSerializer where
  "session_engine =
     engine_with (InjectionMapping ((''Session'', OtherInstance 7) # entries example_mapping))"




definition session_plan :: Payload where
  "session_plan = Struct ''PlanRoot'' [Plain 1, EnvObject ''Session'' (OtherInstance 7)]"

section \<open>Construction of the builder\<close>

lemma checkNotNull_None [simp]: "checkNotNull None msg = Inl (NullPointerException msg)"
  by (simp add: checkNotNull_def)

lemma checkNotNull_Some [simp]: "checkNotNull (Some x) msg = Inr x"
  by (simp add: checkNotNull_def)

text \<open>
  Claim C7. Constructing a builder with an absent cluster (the environment), catalog
  (the catalog resolver) or registry (the plugin registry) fails with a
  \<open>NullPointerException\<close>: no builder is returned, so no operation of it can run.
\<close>

theorem newBuilder_absent_fails:
  assumes "cluster0 = None \<or> catalog0 = None \<or> registry0 = None"
  shows "\<exists>msg. newBuilder kryo0 cluster0 catalog0 registry0 = Inl (NullPointerException msg)"
proof (cases kryo0)
  case None
  then show ?thesis by (simp add: newBuilder_def)
next
  case (Some k)
  show ?thesis
  proof (cases cluster0)
    case None
    with Some show ?thesis by (simp add: newBuilder_def)
  next
    case c: (Some c)
    show ?thesis
    proof (cases catalog0)
      case None
      with Some c show ?thesis by (simp add: newBuilder_def)
    next
      case cat: (Some cat)
      with assms c have "registry0 = None" by simp
      with Some c cat show ?thesis by (simp add: newBuilder_def)
    qed
  qed
qed

theorem newBuilder_absent_fails_witness:
  "\<exists>msg. newBuilder (Some example_kryo) (Some example_cluster) None (Some example_registry)
     = Inl (NullPointerException msg)"
  using newBuilder_absent_fails [of "Some example_cluster" None "Some example_registry" "Some example_kryo"]
  by simp

text \<open>With all four arguments present the constructor returns the builder.\<close>

lemma newBuilder_present:
  "newBuilder (Some k) (Some c) (Some cat) (Some r) =
     Inr \<lparr>injections = [], kryo = k, cluster = c, catalog = cat, registry = r,
          outputBufferSize = MAX_BUFFER_SIZE\<rparr>"
  by (simp add: newBuilder_def)

section \<open>What build does to the builder\<close>

lemma inject_passed_fields:
  "kryo (inject_passed b) = kryo b"
  "cluster (inject_passed b) = cluster b"
  "catalog (inject_passed b) = catalog b"
  "registry (inject_passed b) = registry b"
  "outputBufferSize (inject_passed b) = outputBufferSize b"
  by (simp_all add: inject_passed_def withInjection_of_def withInjection_def Let_def)

lemma inject_passed_injections:
  "injections (inject_passed b) = injections b @ passed_injections b"
  by (simp add: inject_passed_def withInjection_of_def withInjection_def Let_def
      passed_injections_def)

lemma fold_withInjection_injections:
  "injections (fold withInjection injs b) = injections b @ injs"
  by (induction injs arbitrary: b) (simp_all add: withInjection_def)

lemma fold_withInjection_fields:
  "cluster (fold withInjection injs b) = cluster b"
  "catalog (fold withInjection injs b) = catalog b"
  "registry (fold withInjection injs b) = registry b"
  "outputBufferSize (fold withInjection injs b) = outputBufferSize b"
  by (induction injs arbitrary: b) (simp_all add: withInjection_def)

lemma build_with_builder:
  "injections (fst (build_with mk regs b)) = injections (inject_passed b)"
  "cluster (fst (build_with mk regs b)) = cluster b"
  "catalog (fst (build_with mk regs b)) = catalog b"
  "registry (fst (build_with mk regs b)) = registry b"
  "outputBufferSize (fst (build_with mk regs b)) = outputBufferSize b"
  by (simp_all add: build_with_def Let_def inject_passed_fields split: sum.splits)

lemma build_with_context:
  assumes "build_with mk regs b = (b', Inr s)"
  shows "getContext s = \<lparr>getCluster = cluster b, getCatalog = catalog b,
      getRegistry = registry b,
      getOutputBufferSize = Math_min (outputBufferSize b) MAX_BUFFER_SIZE\<rparr>"
  using assms
  by (auto simp add: build_with_def Let_def inject_passed_fields split: sum.splits)

lemma build_with_mapping:
  assumes "build_with mk regs b = (b', Inr s)"
  shows "mk (injections b @ passed_injections b) = Inr (serializerMapping s)"
  using assms
  by (auto simp add: build_with_def Let_def inject_passed_injections split: sum.splits)

lemma passed_injections_build [simp]:
  "passed_injections (fst (build_with mk regs b)) = passed_injections b"
  by (simp add: passed_injections_def build_with_builder)

section \<open>The buffer size\<close>

lemma MAX_BUFFER_SIZE_value: "sint MAX_BUFFER_SIZE = 65536"
  by (simp add: MAX_BUFFER_SIZE_def)

lemma Math_min_sint: "sint (Math_min a b) = min (sint a) (sint b)"
  by (simp add: Math_min_def word_sle_eq min_def)

text \<open>
  Claim C5. \<open>setOutputBufferSize n\<close> fails for every \<open>n \<le> 0\<close>. For every \<open>n > 0\<close>
  it succeeds, and a later \<open>build\<close> that returns an engine (after any calls of
  \<open>withInjection\<close>, and whatever \<open>InjectionMapping.of\<close> and the register helpers do)
  stores \<open>min n MAX_BUFFER_SIZE\<close> in the context, where \<open>MAX_BUFFER_SIZE\<close> is
  \<open>2 << 15 = 65536\<close>; so the size \<open>serialize\<close> allocates first is at most
  \<open>MAX_BUFFER_SIZE\<close>.
\<close>

theorem setOutputBufferSize_caps_build:
  "(sint n \<le> 0 \<longrightarrow> setOutputBufferSize n b = Inl IllegalArgumentException) \<and>
   (0 < sint n \<longrightarrow>
      (\<exists>b1. setOutputBufferSize n b = Inr b1 \<and>
         (\<forall>mk regs injs b' s.
            build_with mk regs (fold withInjection injs b1) = (b', Inr s) \<longrightarrow>
              sint (getOutputBufferSize (getContext s)) = min (sint n) (sint MAX_BUFFER_SIZE) \<and>
              sint (serialize_allocation s) \<le> sint MAX_BUFFER_SIZE))) \<and>
   sint MAX_BUFFER_SIZE = 65536"
proof -
  have neg: "setOutputBufferSize n b = Inl IllegalArgumentException" if "sint n \<le> 0"
    using that by (simp add: setOutputBufferSize_def word_sless_alt)
  have pos: "setOutputBufferSize n b = Inr (b\<lparr>outputBufferSize := n\<rparr>)" if "0 < sint n"
    using that by (simp add: setOutputBufferSize_def word_sless_alt)
  have cap: "sint (getOutputBufferSize (getContext s)) = min (sint n) (sint MAX_BUFFER_SIZE) \<and>
             sint (serialize_allocation s) \<le> sint MAX_BUFFER_SIZE"
    if "build_with mk regs (fold withInjection injs (b\<lparr>outputBufferSize := n\<rparr>)) = (b', Inr s)"
    for mk regs injs b' s
  proof -
    from that have "getOutputBufferSize (getContext s) = Math_min n MAX_BUFFER_SIZE"
      by (simp add: build_with_context fold_withInjection_fields)
    then show ?thesis
      by (simp add: serialize_allocation_def Math_min_sint)
  qed
  from neg pos cap show ?thesis
    by (auto simp add: MAX_BUFFER_SIZE_value)
qed

theorem setOutputBufferSize_caps_build_witness:
  "setOutputBufferSize (- 5) example_builder = Inl IllegalArgumentException \<and>
   (\<exists>b1 b' s. setOutputBufferSize 100000 example_builder = Inr b1 \<and>
      build_with InjectionMapping_of example_regs (fold withInjection [] b1) = (b', Inr s) \<and>
      sint (getOutputBufferSize (getContext s)) = 65536 \<and>
      sint (serialize_allocation s) \<le> 65536)"
proof -
  have neg: "sint (- 5 :: jint) \<le> 0" by simp
  have pos: "0 < sint (100000 :: jint)" by simp
  from setOutputBufferSize_caps_build [of "- 5" example_builder] neg
  have a: "setOutputBufferSize (- 5) example_builder = Inl IllegalArgumentException" by blast
  from setOutputBufferSize_caps_build [of 100000 example_builder] pos
  obtain b1 where b1: "setOutputBufferSize 100000 example_builder = Inr b1"
    and cap: "\<And>mk regs injs b' s.
            build_with mk regs (fold withInjection injs b1) = (b', Inr s) \<Longrightarrow>
              sint (getOutputBufferSize (getContext s))
                = min (sint (100000 :: jint)) (sint MAX_BUFFER_SIZE) \<and>
              sint (serialize_allocation s) \<le> sint MAX_BUFFER_SIZE"
    by blast
  from b1 have b1_eq: "b1 = example_builder\<lparr>outputBufferSize := 100000\<rparr>"
    by (auto simp add: setOutputBufferSize_def word_sless_alt)
  obtain b' r where br: "build_with InjectionMapping_of example_regs (fold withInjection [] b1) = (b', r)"
    by (cases "build_with InjectionMapping_of example_regs (fold withInjection [] b1)")
  have "\<exists>s. r = Inr s"
    using br unfolding b1_eq
    by (auto simp add: build_with_def example_builder_def example_regs_def Let_def
        inject_passed_def withInjection_of_def withInjection_def InjectionMapping_of_def
        Injection_of_def RelOptCluster_class_def CalciteCatalogReader_class_def
        StoragePluginRegistry_class_def)
  then obtain s where s: "build_with InjectionMapping_of example_regs (fold withInjection [] b1) = (b', Inr s)"
    using br by auto
  from cap [OF s] have "sint (getOutputBufferSize (getContext s)) = 65536 \<and>
      sint (serialize_allocation s) \<le> 65536"
    by (simp add: MAX_BUFFER_SIZE_value)
  with a b1 s show ?thesis by blast
qed

section \<open>Repeated build\<close>

text \<open>
  Claim C10. \<open>build\<close> is not idempotent on the builder: whatever
  \<open>InjectionMapping.of\<close> and the register helpers do, each call appends the three
  injections of the passed instances (for \<open>RelOptCluster\<close>, \<open>CalciteCatalogReader\<close>
  and \<open>StoragePluginRegistry\<close>) to the builder's own list. After one call the list
  holds them, and the list a second call on the same builder hands to
  \<open>InjectionMapping.of\<close>, which is the list of \<open>inject_passed\<close> of that builder,
  holds each of the three TypeIds twice.
\<close>

theorem build_not_idempotent:
  "injections (fst (build_with mk regs b)) = injections b @ passed_injections b \<and>
   injections (inject_passed (fst (build_with mk regs b)))
     = injections b @ passed_injections b @ passed_injections b \<and>
   injections (fst (build_with mk' regs' (fst (build_with mk regs b))))
     = injections b @ passed_injections b @ passed_injections b \<and>
   map inj_type (passed_injections b)
     = [RelOptCluster_class, CalciteCatalogReader_class, StoragePluginRegistry_class] \<and>
   \<not> distinct (map inj_type (injections (inject_passed (fst (build_with mk regs b)))))"
proof -
  let ?b1 = "fst (build_with mk regs b)"
  have first: "injections ?b1 = injections b @ passed_injections b"
    by (simp add: build_with_builder inject_passed_injections)
  have handed: "injections (inject_passed ?b1)
      = injections b @ passed_injections b @ passed_injections b"
    by (simp add: inject_passed_injections first)
  have second: "injections (fst (build_with mk' regs' ?b1))
      = injections b @ passed_injections b @ passed_injections b"
    by (simp add: build_with_builder handed)
  have types: "map inj_type (passed_injections b)
      = [RelOptCluster_class, CalciteCatalogReader_class, StoragePluginRegistry_class]"
    by (simp add: passed_injections_def Injection_of_def)
  have "\<not> distinct (map inj_type (passed_injections b) @ map inj_type (passed_injections b))"
    unfolding types by simp
  then have twice: "\<not> distinct (map inj_type (injections (inject_passed ?b1)))"
    by (simp add: handed)
  from first handed second types twice show ?thesis by blast
qed

text \<open>Under the contract the spec gives \<open>InjectionMapping.of\<close>, a second build fails.\<close>

lemma second_build_fails:
  "snd (build regs' (fst (build regs b))) = Inl AmbiguousInjection"
proof -
  have "\<not> distinct (map inj_type (injections (inject_passed (fst (build_with InjectionMapping_of regs b)))))"
    by (simp add: build_with_builder inject_passed_injections, simp add: passed_injections_def Injection_of_def)
  then show ?thesis
    by (simp add: build_def build_with_def Let_def InjectionMapping_of_def)
qed

section \<open>The default serializer factory\<close>

text \<open>
  Claim C3. For every queried type, the default serializer factory of \<open>setup\<close> is
  the first match over exactly four category predicates in the fixed order operator
  descriptor (\<open>SqlOperator\<close>), data-type descriptor (\<open>RelDataType\<close>), plugin handle
  (\<open>StoragePlugin\<close>), framework writable (\<open>Writable\<close>), each tested on the hierarchy
  of the type; if none matches, the result is the \<open>InjectingSerializer\<close>.
\<close>

theorem makeSerializer_first_match:
  "makeSerializer h (RelSerializerFactory pluginSerializer context mapping) type =
     first_match
       [(isAssignableFrom h SqlOperator_class, SqlOperatorSerializer type),
        (isAssignableFrom h RelDataType_class,
           RelDataTypeSerializer type (getTypeFactory (getCluster context))),
        (isAssignableFrom h StoragePlugin_class, pluginSerializer),
        (isAssignableFrom h Writable_class, WritableSerializer)]
       (InjectingSerializer type mapping) type"
proof (cases "isAssignableFrom h SqlOperator_class type")
  case True
  then show ?thesis by simp
next
  case no_operator: False
  show ?thesis
  proof (cases "isAssignableFrom h RelDataType_class type")
    case True
    with no_operator show ?thesis by simp
  next
    case no_data_type: False
    show ?thesis
    proof (cases "isAssignableFrom h StoragePlugin_class type")
      case True
      with no_operator no_data_type show ?thesis by simp
    next
      case no_plugin: False
      with no_operator no_data_type show ?thesis
        by (cases "isAssignableFrom h Writable_class type") simp_all
    qed
  qed
qed

text \<open>
  The strategy a call returns is what \<open>makeSerializer\<close> gives for the type: no branch
  reads the state. A call changes the number of allocated objects and nothing else.
\<close>

lemma strategy_of_new_object [simp]: "strategy_of (new_object ser st) = ser"
  by (simp add: strategy_of_def new_object_def)

lemma kryoContents_new_object [simp]: "kryoContents (snd (new_object ser st)) = kryoContents st"
  by (simp add: new_object_def)

lemma makeSerializer_call_strategy:
  "strategy_of (makeSerializer_call h f type st) = makeSerializer h f type"
proof (cases f)
  case KryoBuiltinFactory
  then show ?thesis by simp
next
  case (RelSerializerFactory pluginSerializer ctx mapping)
  have plugin: "strategy_of ((Captured, pluginSerializer), st) = pluginSerializer"
    by (simp add: strategy_of_def)
  show ?thesis
  proof (cases "isAssignableFrom h SqlOperator_class type")
    case True
    with RelSerializerFactory show ?thesis by simp
  next
    case no_operator: False
    show ?thesis
    proof (cases "isAssignableFrom h RelDataType_class type")
      case True
      with RelSerializerFactory no_operator show ?thesis by simp
    next
      case no_data_type: False
      show ?thesis
      proof (cases "isAssignableFrom h StoragePlugin_class type")
        case True
        with RelSerializerFactory no_operator no_data_type plugin show ?thesis by simp
      next
        case no_plugin: False
        with RelSerializerFactory no_operator no_data_type show ?thesis
          by (cases "isAssignableFrom h Writable_class type") simp_all
      qed
    qed
  qed
qed

lemma makeSerializer_call_kryo:
  "kryoContents (snd (makeSerializer_call h f type st)) = kryoContents st"
  by (cases f) (simp_all add: new_object_def)

lemma run_calls_kryo: "kryoContents (run_calls h f ts st) = kryoContents st"
  by (induction ts arbitrary: st) (simp_all add: makeSerializer_call_kryo)

text \<open>
  Claim C9. Resolution is a function of the TypeId alone on one engine: after any
  sequence of resolutions, from any state, a call for a TypeId returns the strategy that
  a call for it returns from any other state, and the resolutions leave what the Kryo
  instance holds as it was.
\<close>

theorem makeSerializer_deterministic:
  "strategy_of (makeSerializer_call h f type (run_calls h f ts st))
     = strategy_of (makeSerializer_call h f type st') \<and>
   kryoContents (run_calls h f ts st) = kryoContents st"
proof -
  have "strategy_of (makeSerializer_call h f type (run_calls h f ts st)) = makeSerializer h f type"
    by (rule makeSerializer_call_strategy)
  moreover have "strategy_of (makeSerializer_call h f type st') = makeSerializer h f type"
    by (rule makeSerializer_call_strategy)
  ultimately show ?thesis by (simp add: run_calls_kryo)
qed

text \<open>
  The strategy is the same; the object is not: two calls for a writable type return two
  newly allocated serializers.
\<close>

lemma makeSerializer_call_fresh:
  "fst (fst (makeSerializer_call example_hierarchy example_factory ''Text''
      \<lparr>kryoContents = example_kryo, allocations = 0\<rparr>)) = Fresh 0 \<and>
   fst (fst (makeSerializer_call example_hierarchy example_factory ''Text''
      (run_calls example_hierarchy example_factory [''Text'']
         \<lparr>kryoContents = example_kryo, allocations = 0\<rparr>))) = Fresh 1"
  by (simp add: example_hierarchy_def example_factory_def new_object_def isAssignableFrom_def
      SqlOperator_class_def RelDataType_class_def StoragePlugin_class_def Writable_class_def)

text \<open>
  The last three statements of \<open>setup\<close> add the default serializers of
  \<open>RelOptTableImpl\<close>, \<open>RelOptNamespaceTable\<close> and \<open>TableMetadata\<close>, bound to the
  catalog and the cluster of the context, after whatever the Kryo instance held.
\<close>

lemma setup_adds_default_serializers:
  "\<exists>pre. defaultSerializers (RelSerializer_setup regs s k) = pre @
     [(RelOptTableImpl_class, RelOptTableImplSerializer (getCatalog (getContext s))),
      (RelOptNamespaceTable_class,
         RelOptNamespaceTableSerializer (getCatalog (getContext s)) (getCluster (getContext s))),
      (TableMetadata_class, TableMetadataSerializer (getCatalog (getContext s)))]"
  by (simp add: RelSerializer_setup_def Let_def addDefaultSerializer_def)

section \<open>Ambiguous injections\<close>

lemma build_fails_iff:
  "snd (build regs b) = Inl AmbiguousInjection \<longleftrightarrow>
     \<not> distinct (map inj_type (injections b @ passed_injections b))"
  by (simp add: build_def build_with_def Let_def InjectionMapping_of_def
      inject_passed_injections del: distinct_append map_append)

lemma build_succeeds:
  assumes "distinct (map inj_type (injections b @ passed_injections b))"
  shows "\<exists>s. snd (build regs b) = Inr s \<and>
     entries (serializerMapping s)
       = map (\<lambda>i. (inj_type i, inj_value i)) (injections b @ passed_injections b)"
  using assms
  by (simp add: build_def build_with_def Let_def InjectionMapping_of_def
      inject_passed_injections del: distinct_append map_append)

lemma index_pair_not_distinct:
  assumes "i < j" and "j < length xs" and "f (xs ! i) = f (xs ! j)"
  shows "\<not> distinct (map f xs)"
proof
  assume d: "distinct (map f xs)"
  from assms have "map f xs ! i = map f xs ! j" "i < length (map f xs)" "j < length (map f xs)"
    by simp_all
  with d have "i = j" using nth_eq_iff_index_eq [of "map f xs" i j] by simp
  with assms show False by simp
qed

text \<open>
  Claim C2. If two of the entries share a TypeId, constructing the injection mapping
  fails; so \<open>build\<close> on a builder that received them through \<open>withInjection\<close>
  returns the error and no engine, and no \<open>serialize\<close> or \<open>deserialize\<close> call is
  possible. Neither of the two instances is kept in place of the other.
\<close>

theorem duplicate_injection_rejected:
  assumes "i < j" and "j < length injs" and "inj_type (injs ! i) = inj_type (injs ! j)"
  shows "InjectionMapping_of injs = Inl AmbiguousInjection \<and>
         snd (build regs (fold withInjection injs b)) = Inl AmbiguousInjection"
proof -
  from assms have nd: "\<not> distinct (map inj_type injs)"
    by (rule index_pair_not_distinct)
  then have "\<not> distinct (map inj_type (injections (fold withInjection injs b)
      @ passed_injections (fold withInjection injs b)))"
    by (simp add: fold_withInjection_injections)
  with nd show ?thesis
    by (simp add: build_fails_iff InjectionMapping_of_def del: distinct_append map_append)
qed

theorem duplicate_injection_rejected_witness:
  "InjectionMapping_of [Injection_of ''A'' (OtherInstance 7), Injection_of ''B'' (OtherInstance 8),
       Injection_of ''A'' (OtherInstance 9)] = Inl AmbiguousInjection \<and>
   snd (build example_regs (fold withInjection [Injection_of ''A'' (OtherInstance 7),
       Injection_of ''B'' (OtherInstance 8), Injection_of ''A'' (OtherInstance 9)] example_builder))
     = Inl AmbiguousInjection"
  using duplicate_injection_rejected [of 0 2 "[Injection_of ''A'' (OtherInstance 7),
       Injection_of ''B'' (OtherInstance 8), Injection_of ''A'' (OtherInstance 9)]"
       example_regs example_builder]
  by (simp add: Injection_of_def)

text \<open>
  Claim C6. \<open>build\<close> adds the injections for \<open>RelOptCluster\<close>,
  \<open>CalciteCatalogReader\<close> and \<open>StoragePluginRegistry\<close>, bound to the instances the
  builder was constructed with, to the injections the caller supplied. If the caller
  supplied an injection for one of these three TypeIds, \<open>build\<close> fails with the
  ambiguous-injection error. If \<open>build\<close> returns an engine, its mapping holds the
  three passed instances and every injection of the caller.
\<close>

theorem build_injects_environment:
  assumes nb: "newBuilder (Some k) (Some c) (Some cat) (Some r) = Inr b0"
      and b: "b = fold withInjection injs b0"
  shows "injections (fst (build regs b)) =
           injs @ [Injection_of RelOptCluster_class (ClusterInstance c),
                   Injection_of CalciteCatalogReader_class (CatalogInstance cat),
                   Injection_of StoragePluginRegistry_class (RegistryInstance r)] \<and>
         ((\<exists>i. i \<in> set injs \<and> inj_type i \<in> {RelOptCluster_class, CalciteCatalogReader_class,
               StoragePluginRegistry_class}) \<longrightarrow>
            snd (build regs b) = Inl AmbiguousInjection) \<and>
         (\<forall>s. snd (build regs b) = Inr s \<longrightarrow>
            lookup (serializerMapping s) RelOptCluster_class = Some (ClusterInstance c) \<and>
            lookup (serializerMapping s) CalciteCatalogReader_class = Some (CatalogInstance cat) \<and>
            lookup (serializerMapping s) StoragePluginRegistry_class = Some (RegistryInstance r) \<and>
            (\<forall>i. i \<in> set injs \<longrightarrow> lookup (serializerMapping s) (inj_type i) = Some (inj_value i)))"
proof -
  from nb have b0: "b0 = \<lparr>injections = [], kryo = k, cluster = c, catalog = cat, registry = r,
          outputBufferSize = MAX_BUFFER_SIZE\<rparr>"
    by (simp add: newBuilder_present)
  have inj: "injections b = injs" and f: "cluster b = c" "catalog b = cat" "registry b = r"
    by (simp_all add: b fold_withInjection_injections fold_withInjection_fields b0)
  let ?three = "[Injection_of RelOptCluster_class (ClusterInstance c),
                   Injection_of CalciteCatalogReader_class (CatalogInstance cat),
                   Injection_of StoragePluginRegistry_class (RegistryInstance r)]"
  have p: "passed_injections b = ?three"
    by (simp add: passed_injections_def f)
  have 1: "injections (fst (build regs b)) = injs @ ?three"
    by (simp add: build_def build_with_builder inject_passed_injections inj p)
  have 2: "snd (build regs b) = Inl AmbiguousInjection"
    if "i \<in> set injs" and "inj_type i \<in> {RelOptCluster_class, CalciteCatalogReader_class,
               StoragePluginRegistry_class}" for i
  proof -
    from that have "inj_type i \<in> set (map inj_type injs) \<inter> set (map inj_type ?three)"
      by (auto simp add: Injection_of_def)
    then have "\<not> distinct (map inj_type (injs @ ?three))"
      by (simp only: map_append distinct_append) blast
    then show ?thesis
      by (simp add: build_fails_iff inj p del: distinct_append map_append)
  qed
  have 3: "lookup (serializerMapping s) (inj_type i) = Some (inj_value i)"
    if s: "snd (build regs b) = Inr s" and i: "i \<in> set (injs @ ?three)" for s i
  proof -
    have d: "distinct (map inj_type (injs @ ?three))"
    proof (rule ccontr)
      assume "\<not> ?thesis"
      then have "snd (build regs b) = Inl AmbiguousInjection"
        by (simp add: build_fails_iff inj p del: distinct_append map_append)
      with s show False by simp
    qed
    then have d': "distinct (map inj_type (injections b @ passed_injections b))"
      by (simp only: inj p)
    from build_succeeds [OF d', of regs] s
    have e: "entries (serializerMapping s) = map (\<lambda>i. (inj_type i, inj_value i)) (injs @ ?three)"
      by (auto simp only: inj p)
    have "map fst (map (\<lambda>i. (inj_type i, inj_value i)) (injs @ ?three)) = map inj_type (injs @ ?three)"
      by (simp add: comp_def)
    with d have "distinct (map fst (map (\<lambda>i. (inj_type i, inj_value i)) (injs @ ?three)))"
      by (simp only:)
    moreover from i have "(inj_type i, inj_value i) \<in> set (map (\<lambda>i. (inj_type i, inj_value i)) (injs @ ?three))"
      by (simp only: set_map) blast
    ultimately show ?thesis
      by (simp only: lookup_def e map_of_eq_Some_iff)
  qed
  have c1: "lookup (serializerMapping s) RelOptCluster_class = Some (ClusterInstance c)"
    if s: "snd (build regs b) = Inr s" for s
    using 3 [OF s, of "Injection_of RelOptCluster_class (ClusterInstance c)"]
    by (simp add: Injection_of_def)
  have c2: "lookup (serializerMapping s) CalciteCatalogReader_class = Some (CatalogInstance cat)"
    if s: "snd (build regs b) = Inr s" for s
    using 3 [OF s, of "Injection_of CalciteCatalogReader_class (CatalogInstance cat)"]
    by (simp add: Injection_of_def)
  have c3: "lookup (serializerMapping s) StoragePluginRegistry_class = Some (RegistryInstance r)"
    if s: "snd (build regs b) = Inr s" for s
    using 3 [OF s, of "Injection_of StoragePluginRegistry_class (RegistryInstance r)"]
    by (simp add: Injection_of_def)
  have c4: "lookup (serializerMapping s) (inj_type i) = Some (inj_value i)"
    if s: "snd (build regs b) = Inr s" and "i \<in> set injs" for s i
    using 3 [OF s, of i] that by simp
  from 1 2 c1 c2 c3 c4 show ?thesis by blast
qed

lemma example_newBuilder:
  "newBuilder (Some example_kryo) (Some example_cluster) (Some example_catalog)
     (Some example_registry) = Inr example_builder"
  by (simp add: newBuilder_present example_builder_def)

theorem build_injects_environment_witness:
  "snd (build example_regs (fold withInjection
       [Injection_of RelOptCluster_class (ClusterInstance (RelOptCluster 9 9))] example_builder))
     = Inl AmbiguousInjection \<and>
   (\<exists>s. snd (build example_regs (fold withInjection
       [Injection_of ''A'' (OtherInstance 7)] example_builder)) = Inr s \<and>
     lookup (serializerMapping s) RelOptCluster_class = Some (ClusterInstance example_cluster) \<and>
     lookup (serializerMapping s) ''A'' = Some (OtherInstance 7))"
proof -
  let ?dup = "[Injection_of RelOptCluster_class (ClusterInstance (RelOptCluster 9 9))]"
  let ?ok = "[Injection_of ''A'' (OtherInstance 7)]"
  have "\<exists>i. i \<in> set ?dup \<and> inj_type i \<in> {RelOptCluster_class, CalciteCatalogReader_class,
               StoragePluginRegistry_class}"
    by (simp add: Injection_of_def)
  with build_injects_environment [where injs = ?dup and regs = example_regs, OF example_newBuilder refl]
  have a: "snd (build example_regs (fold withInjection ?dup example_builder)) = Inl AmbiguousInjection"
    by blast
  have "distinct (map inj_type (injections (fold withInjection ?ok example_builder)
      @ passed_injections (fold withInjection ?ok example_builder)))"
    by (simp add: fold_withInjection_injections example_builder_def passed_injections_def
        Injection_of_def withInjection_def RelOptCluster_class_def CalciteCatalogReader_class_def
        StoragePluginRegistry_class_def)
  from build_succeeds [OF this, of example_regs]
  obtain s where s: "snd (build example_regs (fold withInjection ?ok example_builder)) = Inr s"
    by blast
  with build_injects_environment [where injs = ?ok and regs = example_regs, OF example_newBuilder refl]
  have "lookup (serializerMapping s) RelOptCluster_class = Some (ClusterInstance example_cluster) \<and>
     lookup (serializerMapping s) (inj_type (Injection_of ''A'' (OtherInstance 7)))
       = Some (inj_value (Injection_of ''A'' (OtherInstance 7)))"
    by simp
  with a s show ?thesis by (auto simp add: Injection_of_def)
qed

text \<open>
  What the caller did not inject, and \<open>build\<close> does not add, is not in the mapping
  of the engine.
\<close>

lemma build_lookup_None:
  assumes "snd (build regs b) = Inr s"
      and "t \<notin> set (map inj_type (injections b))"
      and "t \<notin> {RelOptCluster_class, CalciteCatalogReader_class, StoragePluginRegistry_class}"
  shows "lookup (serializerMapping s) t = None"
proof -
  have "build_with InjectionMapping_of regs b = (fst (build regs b), Inr s)"
    using assms(1) by (simp add: build_def prod_eq_iff)
  then have "InjectionMapping_of (injections b @ passed_injections b) = Inr (serializerMapping s)"
    by (rule build_with_mapping)
  then have e: "entries (serializerMapping s)
      = map (\<lambda>i. (inj_type i, inj_value i)) (injections b @ passed_injections b)"
  proof (cases "distinct (map inj_type (injections b @ passed_injections b))")
    case True
    with \<open>InjectionMapping_of (injections b @ passed_injections b) = Inr (serializerMapping s)\<close>
    have "serializerMapping s = InjectionMapping
        (map (\<lambda>i. (inj_type i, inj_value i)) (injections b @ passed_injections b))"
      by (simp add: InjectionMapping_of_def del: distinct_append map_append)
    then show ?thesis by simp
  next
    case False
    with \<open>InjectionMapping_of (injections b @ passed_injections b) = Inr (serializerMapping s)\<close>
    show ?thesis by (simp add: InjectionMapping_of_def del: distinct_append map_append)
  qed
  have "t \<notin> set (map inj_type (injections b @ passed_injections b))"
    using assms(2,3) by (simp add: passed_injections_def Injection_of_def)
  then have "t \<notin> fst ` set (entries (serializerMapping s))"
    unfolding e by force
  then show ?thesis
    by (simp add: lookup_def map_of_eq_None_iff)
qed

section \<open>Reading what was written\<close>

lemma readFields_concat:
  assumes "\<And>f fuel rest. f \<in> set fs \<Longrightarrow> length (writeValue me f) \<le> fuel \<Longrightarrow>
             readValue ops sd fuel (writeValue me f @ rest) =
               (case reconstruct me ops sd f of Inl e \<Rightarrow> Inl e | Inr g \<Rightarrow> Inr (g, rest))"
      and "length (concat (map (writeValue me) fs)) \<le> fuel"
  shows "readFields ops sd fuel (length fs) (concat (map (writeValue me) fs) @ rest) =
           (case sequence (map (reconstruct me ops sd) fs) of
              Inl e \<Rightarrow> Inl e
            | Inr gs \<Rightarrow> Inr (gs, rest))"
  using assms
proof (induction fs arbitrary: rest)
  case Nil
  then show ?case by simp
next
  case (Cons f fs)
  have lf: "length (writeValue me f) \<le> fuel" and lfs: "length (concat (map (writeValue me) fs)) \<le> fuel"
    using Cons.prems(2) by simp_all
  have hd: "readValue ops sd fuel (writeValue me f @ (concat (map (writeValue me) fs) @ rest)) =
               (case reconstruct me ops sd f of Inl e \<Rightarrow> Inl e
                | Inr g \<Rightarrow> Inr (g, concat (map (writeValue me) fs) @ rest))"
    using Cons.prems(1) [of f fuel] lf by simp
  have tl: "readFields ops sd fuel (length fs) (concat (map (writeValue me) fs) @ rest) =
           (case sequence (map (reconstruct me ops sd) fs) of
              Inl e \<Rightarrow> Inl e
            | Inr gs \<Rightarrow> Inr (gs, rest))"
    using Cons.IH [OF _ lfs] Cons.prems(1) by simp
  show ?case
    by (cases "reconstruct me ops sd f")
       (simp_all add: hd tl split: sum.splits)
qed

lemma readValue_writeValue:
  "length (writeValue me G) \<le> fuel \<Longrightarrow>
     readValue ops sd fuel (writeValue me G @ rest) =
       (case reconstruct me ops sd G of Inl e \<Rightarrow> Inl e | Inr g \<Rightarrow> Inr (g, rest))"
proof (induction G arbitrary: fuel rest)
  case (Plain i)
  then show ?case by (cases fuel) simp_all
next
  case (Struct t fs)
  obtain k where k: "fuel = Suc k" using Struct.prems by (cases fuel) simp_all
  show ?case
  proof (cases "lookup me t")
    case None
    from Struct.prems None k have len: "length (concat (map (writeValue me) fs)) \<le> k"
      by simp
    have "readFields ops sd k (length fs) (concat (map (writeValue me) fs) @ rest) =
           (case sequence (map (reconstruct me ops sd) fs) of
              Inl e \<Rightarrow> Inl e
            | Inr gs \<Rightarrow> Inr (gs, rest))"
      by (rule readFields_concat [OF Struct.IH len])
    then show ?thesis
      using None k by (simp split: sum.splits)
  next
    case (Some i)
    then show ?thesis using k by (simp split: option.splits)
  qed
next
  case (EnvObject t i)
  obtain k where k: "fuel = Suc k" using EnvObject.prems by (cases fuel) simp_all
  show ?case
  proof (cases "lookup me t")
    case None
    then show ?thesis using k by simp
  next
    case (Some j)
    then show ?thesis using k by (simp split: option.splits)
  qed
next
  case (OperatorDesc n)
  then show ?case by (cases fuel) simp_all
next
  case (DataTypeDesc k p sc)
  then show ?case by (cases fuel) simp_all
next
  case (PluginHandle n p)
  then show ?case by (cases fuel) (simp_all split: option.splits)
next
  case (WritableValue bs)
  then show ?case by (cases fuel) simp_all
qed

lemma sequence_map_Inr:
  "(\<And>x. x \<in> set xs \<Longrightarrow> f x = Inr (g x)) \<Longrightarrow> sequence (map f xs) = Inr (map g xs)"
  by (induction xs) simp_all


lemma deserialize_serialize:
  assumes "lookup (serializerMapping se) SerializationWrapper_class = None"
  shows "deserialize ops sd (serialize se G) =
           reconstruct (serializerMapping se) ops sd G"
proof -
  let ?W = "SerializationWrapper_of G"
  have "readValue ops sd (length (writeValue (serializerMapping se) ?W))
          (writeValue (serializerMapping se) ?W @ []) =
        (case reconstruct (serializerMapping se) ops sd ?W of
           Inl e \<Rightarrow> Inl e | Inr g \<Rightarrow> Inr (g, []))"
    by (rule readValue_writeValue) simp
  then have "readObject ops sd (serialize se G) =
        reconstruct (serializerMapping se) ops sd ?W"
    by (simp add: readObject_def serialize_def writeObject_def split: sum.splits)
  moreover have "reconstruct (serializerMapping se) ops sd ?W =
      (case reconstruct (serializerMapping se) ops sd G of
         Inl e \<Rightarrow> Inl e | Inr g \<Rightarrow> Inr (Struct SerializationWrapper_class [g]))"
    using assms by (simp add: SerializationWrapper_of_def split: sum.splits)
  ultimately show ?thesis
    by (simp add: deserialize_def split: sum.splits)
qed

lemma sequence_Inl:
  assumes "sequence rs = Inl e"
  shows "Inl e \<in> set rs"
  using assms
proof (induction rs rule: sequence.induct)
  case (3 x rs)
  then show ?case by (simp split: sum.splits)
qed simp_all

lemma sequence_fails:
  assumes "Inl e \<in> set rs"
  shows "\<exists>e'. sequence rs = Inl e'"
  using assms
proof (induction rs rule: sequence.induct)
  case (3 x rs)
  then show ?case by (auto split: sum.splits)
qed simp_all

lemma reconstruct_error:
  "reconstruct me ops sd G = Inl e \<Longrightarrow> resolution_error e"
proof (induction G arbitrary: e)
  case (Struct t fs)
  show ?case
  proof (cases "lookup me t")
    case None
    with Struct.prems have "sequence (map (reconstruct me ops sd) fs) = Inl e"
      by (simp split: sum.splits)
    then have "Inl e \<in> set (map (reconstruct me ops sd) fs)" by (rule sequence_Inl)
    then obtain f where "f \<in> set fs" "reconstruct me ops sd f = Inl e" by auto
    then show ?thesis by (rule Struct.IH)
  next
    case (Some i)
    with Struct.prems show ?thesis by (auto split: option.splits)
  qed
qed (auto split: option.splits if_splits)

lemma reconstruct_exposed:
  assumes "exposed me x G" and "lookup (serializerMapping sd) x = None"
  shows "\<exists>e. reconstruct me ops sd G = Inl e"
  using assms
proof (induction G)
  case (Struct t fs)
  show ?case
  proof (cases "lookup me t")
    case None
    with Struct.prems obtain f where f: "f \<in> set fs" "exposed me x f"
      by (auto simp add: list_ex_iff)
    with Struct obtain e where "reconstruct me ops sd f = Inl e" by blast
    with f have "Inl e \<in> set (map (reconstruct me ops sd) fs)" by force
    then obtain e' where "sequence (map (reconstruct me ops sd) fs) = Inl e'"
      using sequence_fails by blast
    with None show ?thesis by simp
  next
    case (Some i)
    with Struct.prems show ?thesis by simp
  qed
qed auto

lemma exposed_lookup: "exposed me x G \<Longrightarrow> lookup me x \<noteq> None"
proof (induction G)
  case (Struct t fs)
  then show ?case by (auto simp add: list_ex_iff split: option.splits)
qed auto

text \<open>
  The fuel \<open>readObject\<close> gives the reader is enough: a read returns no more than it
  was given, and fuel beyond the length of the input changes nothing.
\<close>

lemma readValue_Nil [simp]: "readValue ops s k [] = Inl StructuralDecodeError"
  by (cases k) simp_all

lemma read_shorter_aux:
  "(\<forall>ts v rest. readValue ops s k ts = Inr (v, rest) \<longrightarrow> length rest \<le> length ts) \<and>
   (\<forall>n ts vs rest. readFields ops s k n ts = Inr (vs, rest) \<longrightarrow> length rest \<le> length ts)"
proof (induction k)
  case 0
  have v: "\<forall>ts v rest. readValue ops s 0 ts = Inr (v, rest) \<longrightarrow> length rest \<le> length ts"
    by simp
  have "readFields ops s 0 n ts = Inr (vs, rest) \<longrightarrow> length rest \<le> length ts" for n ts vs rest
    by (cases n) simp_all
  with v show ?case by blast
next
  case (Suc k)
  then have F: "\<And>n ts vs rest. readFields ops s k n ts = Inr (vs, rest) \<Longrightarrow> length rest \<le> length ts"
    by blast
  have V: "length rest \<le> length ts" if r: "readValue ops s (Suc k) ts = Inr (v, rest)" for ts v rest
  proof (cases ts)
    case Nil
    with r show ?thesis by simp
  next
    case (Cons a us)
    show ?thesis
    proof (cases a)
      case (TypeToken t)
      show ?thesis
      proof (cases us)
        case Nil
        with r Cons TypeToken show ?thesis by simp
      next
        case c2: (Cons b ws)
        show ?thesis
        proof (cases b)
          case InjectedTag
          with r Cons TypeToken c2 show ?thesis by (auto split: option.splits)
        next
          case (StructuralTag n)
          with r Cons TypeToken c2 obtain fs where "readFields ops s k n ws = Inr (fs, rest)"
            by (auto split: sum.splits)
          then have "length rest \<le> length ws" by (rule F)
          with Cons c2 show ?thesis by simp
        qed (use r Cons TypeToken c2 in simp_all)
      qed
    qed (use r Cons in \<open>auto split: option.splits if_splits\<close>)
  qed
  have "length rest \<le> length ts" if "readFields ops s (Suc k) n ts = Inr (vs, rest)" for n ts vs rest
    using that
  proof (induction n arbitrary: ts vs rest)
    case 0
    then show ?case by simp
  next
    case (Suc n)
    from Suc.prems obtain f mid gs where
      a: "readValue ops s (Suc k) ts = Inr (f, mid)" and
      b: "readFields ops s (Suc k) n mid = Inr (gs, rest)"
      by (auto split: sum.splits)
    from a have "length mid \<le> length ts" by (rule V)
    moreover from b have "length rest \<le> length mid" by (rule Suc.IH)
    ultimately show ?case by simp
  qed
  with V show ?case by blast
qed

lemma readValue_shorter:
  "readValue ops s k ts = Inr (v, rest) \<Longrightarrow> length rest \<le> length ts"
  using read_shorter_aux by blast

lemma fuel_enough_aux:
  "(\<forall>ts k'. length ts \<le> k \<longrightarrow> length ts \<le> k' \<longrightarrow>
       readValue ops s k ts = readValue ops s k' ts) \<and>
   (\<forall>n ts k'. length ts \<le> k \<longrightarrow> length ts \<le> k' \<longrightarrow>
       readFields ops s k n ts = readFields ops s k' n ts)"
proof (induction k)
  case 0
  have a: "readFields ops s 0 n ts = readFields ops s k' n ts" if "length ts \<le> 0" for n k' ts
    using that by (cases n) simp_all
  have b: "readValue ops s 0 ts = readValue ops s k' ts" if "length ts \<le> 0" for k' ts
    using that by simp
  from a b show ?case by blast
next
  case (Suc k)
  then have F: "\<And>n ts k'. length ts \<le> k \<Longrightarrow> length ts \<le> k' \<Longrightarrow>
       readFields ops s k n ts = readFields ops s k' n ts"
    by blast
  have V: "readValue ops s (Suc k) ts = readValue ops s k' ts"
    if l: "length ts \<le> Suc k" "length ts \<le> k'" for ts k'
  proof (cases ts)
    case Nil
    then show ?thesis by simp
  next
    case (Cons a us)
    with l obtain j where j: "k' = Suc j" by (cases k') simp_all
    show ?thesis
    proof (cases a)
      case (TypeToken t)
      show ?thesis
      proof (cases us)
        case Nil
        with Cons TypeToken j show ?thesis by simp
      next
        case c2: (Cons b ws)
        show ?thesis
        proof (cases b)
          case (StructuralTag n)
          from l Cons c2 j have "length ws \<le> k" "length ws \<le> j" by simp_all
          then have "readFields ops s k n ws = readFields ops s j n ws" by (rule F)
          with Cons TypeToken c2 StructuralTag j show ?thesis by simp
        qed (use Cons TypeToken c2 j in simp_all)
      qed
    qed (use Cons j in simp_all)
  qed
  have "readFields ops s (Suc k) n ts = readFields ops s k' n ts"
    if "length ts \<le> Suc k" "length ts \<le> k'" for n ts k'
    using that
  proof (induction n arbitrary: ts)
    case 0
    then show ?case by simp
  next
    case (Suc n)
    have a: "readValue ops s (Suc k) ts = readValue ops s k' ts"
      using Suc.prems by (rule V)
    show ?case
    proof (cases "readValue ops s (Suc k) ts")
      case (Inl e)
      moreover from Inl a have "readValue ops s k' ts = Inl e" by simp
      ultimately show ?thesis by simp
    next
      case (Inr p)
      obtain f mid where p: "p = (f, mid)" by (cases p)
      from Inr p have r1: "readValue ops s (Suc k) ts = Inr (f, mid)" by simp
      with a have r2: "readValue ops s k' ts = Inr (f, mid)" by simp
      from r1 have "length mid \<le> length ts" by (rule readValue_shorter)
      with Suc.prems have "length mid \<le> Suc k" "length mid \<le> k'" by simp_all
      then have "readFields ops s (Suc k) n mid = readFields ops s k' n mid"
        by (rule Suc.IH)
      with r1 r2 show ?thesis by simp
    qed
  qed
  with V show ?case by blast
qed

lemma readValue_fuel:
  assumes "length ts \<le> k"
  shows "readValue ops s k ts = readValue ops s (length ts) ts"
proof -
  from fuel_enough_aux [of k ops s]
  have "length ts \<le> k \<longrightarrow> length ts \<le> length ts \<longrightarrow>
       readValue ops s k ts = readValue ops s (length ts) ts"
    by blast
  with assms show ?thesis by blast
qed

text \<open>The engines of the examples are what \<open>build\<close> returns.\<close>

lemma Math_min_same [simp]: "Math_min a a = a"
  by (simp add: Math_min_def)


lemma session_build:
  "snd (build example_regs (withInjection_of ''Session'' (OtherInstance 7) example_builder))
     = Inr session_engine"
  by (simp add: build_def build_with_def Let_def inject_passed_def withInjection_of_def
      withInjection_def InjectionMapping_of_def Injection_of_def example_builder_def
      engine_with_def session_engine_def example_mapping_def example_context_def
      RelOptCluster_class_def CalciteCatalogReader_class_def StoragePluginRegistry_class_def)

lemmas example_engine_defs = example_engine_def engine_with_def example_mapping_def
  example_context_def example_registry_def lookup_def
  RelOptCluster_class_def CalciteCatalogReader_class_def StoragePluginRegistry_class_def
  SerializationWrapper_class_def



lemma resolve_falls_back:
  assumes "factory_installed s" and "falls_back h (serializerKryo s) t"
  shows "resolve h (serializerKryo s) t = InjectingSerializer t (serializerMapping s)"
proof -
  have "t \<notin> fst ` set (defaultSerializers (serializerKryo s))"
  proof
    assume "t \<in> fst ` set (defaultSerializers (serializerKryo s))"
    then obtain e where e: "e \<in> set (defaultSerializers (serializerKryo s))" "fst e = t"
      by auto
    with assms(2) have "\<not> isAssignableFrom h t t"
      by (auto simp add: falls_back_def list_all_iff)
    then show False by (simp add: isAssignableFrom_def)
  qed
  then have "map_of (defaultSerializers (serializerKryo s)) t = None"
    by (simp add: map_of_eq_None_iff)
  moreover have "makeSerializer h (defaultSerializer (serializerKryo s)) t
      = InjectingSerializer t (serializerMapping s)"
    using assms by (simp add: factory_installed_def falls_back_def)
  ultimately show ?thesis by (simp add: resolve_def)
qed

text \<open>Writing and reading through the registry, on such an engine.\<close>

lemma kryoWrite_admitted:
  assumes "factory_installed s"
  shows "admitted h ops s G \<Longrightarrow>
     kryoWrite h (serializerKryo s) G = Inr (writeValue (serializerMapping s) G)"
proof (induction G)
  case (Struct t fs)
  then have r: "resolve h (serializerKryo s) t = InjectingSerializer t (serializerMapping s)"
    using assms by (simp add: resolve_falls_back)
  have "sequence (map (kryoWrite h (serializerKryo s)) fs)
          = Inr (map (writeValue (serializerMapping s)) fs)"
    using Struct by (intro sequence_map_Inr) (simp add: list_all_iff)
  with r show ?case by (cases "lookup (serializerMapping s) t") simp_all
next
  case (EnvObject t i)
  then have "resolve h (serializerKryo s) t = InjectingSerializer t (serializerMapping s)"
    using assms by (simp add: resolve_falls_back)
  then show ?case by (cases "lookup (serializerMapping s) t") simp_all
qed simp_all



lemma serialize_kryo_serialize:
  assumes "factory_installed s"
      and "falls_back h (serializerKryo s) SerializationWrapper_class"
      and "admitted h ops s G"
  shows "serialize_kryo h s G = Inr (serialize s G)"
proof -
  have "admitted h ops s (SerializationWrapper_of G)"
    using assms(2,3) by (simp add: SerializationWrapper_of_def)
  with assms(1) show ?thesis
    unfolding serialize_kryo_def serialize_def writeObject_def by (rule kryoWrite_admitted)
qed






text \<open>
  Claim C4. If a value of type \<open>x\<close> was written with the "injected" tag, reading the
  bytes with an engine whose mapping has no entry for \<open>x\<close> fails with a resolution
  error; it returns no value. When the value is the root of the graph the error names
  \<open>x\<close>.
\<close>

theorem missing_injection_fails:
  assumes "exposed (serializerMapping se) x G"
      and "lookup (serializerMapping sd) x = None"
      and "lookup (serializerMapping se) SerializationWrapper_class = None"
  shows "(\<exists>e. deserialize ops sd (serialize se G) = Inl e \<and> resolution_error e) \<and>
         ((\<exists>fs. G = Struct x fs) \<or> (\<exists>i. G = EnvObject x i) \<longrightarrow>
            deserialize ops sd (serialize se G) = Inl (ResolutionError x))"
proof -
  have d: "deserialize ops sd (serialize se G) = reconstruct (serializerMapping se) ops sd G"
    using assms(3) by (rule deserialize_serialize)
  from reconstruct_exposed [OF assms(1,2)]
  obtain e where e: "reconstruct (serializerMapping se) ops sd G = Inl e" by blast
  then have "resolution_error e" by (rule reconstruct_error)
  with e d have 1: "\<exists>e. deserialize ops sd (serialize se G) = Inl e \<and> resolution_error e"
    by simp
  have 2: "deserialize ops sd (serialize se G) = Inl (ResolutionError x)"
    if "(\<exists>fs. G = Struct x fs) \<or> (\<exists>i. G = EnvObject x i)"
    using that assms(2) d exposed_lookup [OF assms(1)] by (auto split: option.splits)
  from 1 2 show ?thesis by blast
qed

theorem missing_injection_fails_witness:
  "(\<exists>e. deserialize [''PLUS''] example_engine (serialize session_engine session_plan) = Inl e \<and>
        resolution_error e) \<and>
   deserialize [''PLUS''] example_engine
     (serialize session_engine (EnvObject ''Session'' (OtherInstance 7)))
     = Inl (ResolutionError ''Session'')"
proof -
  have w: "lookup (serializerMapping session_engine) SerializationWrapper_class = None"
    by (simp add: session_engine_def example_engine_defs)
  have n: "lookup (serializerMapping example_engine) ''Session'' = None"
    by (simp add: example_engine_defs)
  have e1: "exposed (serializerMapping session_engine) ''Session'' session_plan"
    by (simp add: session_engine_def session_plan_def example_engine_defs)
  have e2: "exposed (serializerMapping session_engine) ''Session''
      (EnvObject ''Session'' (OtherInstance 7))"
    by (simp add: session_engine_def example_engine_defs)
  from missing_injection_fails [OF e1 n w, of "[''PLUS'']"]
    missing_injection_fails [OF e2 n w, of "[''PLUS'']"]
  show ?thesis by blast
qed

end
